theory Spec2Isabelle
  imports Complex_Main
begin

section \<open>Position-size simulation: data model\<close>

text \<open>
  The development follows \<^verbatim>\<open>position_size_simulation_simple.py\<close>.
  Python floats are modelled by the real numbers (exact arithmetic, no rounding, no NaN),
  Python integers by \<^typ>\<open>int\<close>.  The process-wide pseudo-random generator of the
  \<^verbatim>\<open>random\<close> module is an explicit generator state of an arbitrary type \<open>'g\<close>,
  threaded through every call that draws from it; its three operations used by the
  program (\<^verbatim>\<open>random.seed\<close>, \<^verbatim>\<open>random.random\<close>, \<^verbatim>\<open>random.gauss\<close>) are
  the fields of a record of functions.  Printing is not modelled.
\<close>

record 'g prng =
  rng_seed :: "int \<Rightarrow> 'g"
  rng_random :: "'g \<Rightarrow> real \<times> 'g"
  rng_gauss :: "real \<Rightarrow> real \<Rightarrow> 'g \<Rightarrow> real \<times> 'g"

record StrategyConfig =
  name :: string
  position_size_pct :: real
  position_size_usd :: real
  max_concurrent_positions :: int
  description :: string

text \<open>The class \<^verbatim>\<open>WalletSimulator\<close>: its fields, constructor and \<^verbatim>\<open>reset_daily\<close>.\<close>

record WalletSimulator =
  initial_bankroll :: real
  bankroll :: real
  daily_pnl :: real
  total_pnl :: real
  daily_losses :: real

definition WalletSimulator_init :: "real \<Rightarrow> WalletSimulator" where
  "WalletSimulator_init b =
     \<lparr>initial_bankroll = b, bankroll = b, daily_pnl = 0, total_pnl = 0, daily_losses = 0\<rparr>"

definition reset_daily :: "WalletSimulator \<Rightarrow> WalletSimulator" where
  "reset_daily w = w\<lparr>daily_pnl := 0, daily_losses := 0\<rparr>"

text \<open>
  The local variables of \<^verbatim>\<open>simulate_day\<close> that its loop reads and writes, together
  with the wallet the loop mutates.
\<close>

record day_locals =
  wallet :: WalletSimulator
  trades_today :: int
  wins :: int
  losses :: int
  max_concurrent_hit :: bool
  daily_loss_hit :: bool
  current_exposure :: real

record DailyResult =
  day :: int
  strategy :: string
  trades_taken :: int
  wins :: int
  losses :: int
  daily_pnl :: real
  cumulative_pnl :: real
  hit_rate :: real
  max_concurrent_hit :: bool
  daily_loss_hit :: bool
  bankroll :: real

section \<open>Random outcome and trade-count generators\<close>

text \<open>
  \<^verbatim>\<open>simulate_wallet_edge\<close>: the uniform draw is the left operand of the comparison and
  is taken before the jitter; the payoff is drawn last.
\<close>

definition simulate_wallet_edge ::
  "'g prng \<Rightarrow> real \<Rightarrow> real \<Rightarrow> real \<Rightarrow> 'g \<Rightarrow> (real \<times> bool) \<times> 'g" where
  "simulate_wallet_edge P win_rate avg_win avg_loss g =
     (case rng_random P g of (u, g1) \<Rightarrow>
      case rng_gauss P 0 0.05 g1 of (j, g2) \<Rightarrow>
        if u < win_rate + j
        then (case rng_gauss P 0 10 g2 of (z, g3) \<Rightarrow> ((max (avg_win + z) 0, True), g3))
        else (case rng_gauss P 0 5 g2 of (z, g3) \<Rightarrow> ((min (- avg_loss + z) 0, False), g3)))"

text \<open>
  The \<^verbatim>\<open>while p > L\<close> loop of \<^verbatim>\<open>poisson_random\<close>.  Nothing bounds the number of
  iterations for an arbitrary generator, so the loop is a partial function: \<open>None\<close> means
  that it never returns.
\<close>

partial_function (option) poisson_loop ::
  "'g prng \<Rightarrow> real \<Rightarrow> int \<Rightarrow> real \<Rightarrow> 'g \<Rightarrow> (int \<times> 'g) option" where
  "poisson_loop P L k p g =
     (if p > L
      then (case rng_random P g of (u, g1) \<Rightarrow> poisson_loop P L (k + 1) (p * u) g1)
      else Some (k, g))"

definition poisson_random :: "'g prng \<Rightarrow> real \<Rightarrow> 'g \<Rightarrow> (int \<times> 'g) option" where
  "poisson_random P lambda g =
     (case poisson_loop P (exp (- lambda)) 0 1 g of
        None \<Rightarrow> None
      | Some (k, g1) \<Rightarrow> Some (k - 1, g1))"

section \<open>The trading-day simulator\<close>

definition portfolio_daily_cap :: real where "portfolio_daily_cap = 30"
definition per_wallet_daily_cap :: real where "per_wallet_daily_cap = 20"
definition max_total_exposure :: real where "max_total_exposure = 150"

text \<open>
  The part of the loop body after the three checks (lines 119 to 136): draw an outcome,
  scale it, update the wallet and the counters.
\<close>

definition execute_trade :: "'g prng \<Rightarrow> StrategyConfig \<Rightarrow> day_locals \<Rightarrow> 'g \<Rightarrow> day_locals \<times> 'g" where
  "execute_trade P st s g =
     (case simulate_wallet_edge P 0.55 45 25 g of ((pnl, is_win), g1) \<Rightarrow>
        let scaled_pnl = pnl * (position_size_usd st / 25);
            w = wallet s;
            w1 = w\<lparr>WalletSimulator.daily_pnl := WalletSimulator.daily_pnl w + scaled_pnl\<rparr>;
            w2 = w1\<lparr>total_pnl := total_pnl w1 + scaled_pnl\<rparr>;
            s1 = (if scaled_pnl < 0
                  then s\<lparr>wallet := w2\<lparr>daily_losses := daily_losses w2 + scaled_pnl\<rparr>,
                          day_locals.losses := day_locals.losses s + 1\<rparr>
                  else s\<lparr>wallet := w2, day_locals.wins := day_locals.wins s + 1\<rparr>)
        in (s1\<lparr>trades_today := trades_today s1 + 1,
                 current_exposure := current_exposure s1 + position_size_usd st\<rparr>, g1))"

text \<open>
  The \<^verbatim>\<open>for trade_num in range(num_trades)\<close> loop; the first argument counts the
  iterations that remain, and each \<^verbatim>\<open>break\<close> returns at once.
\<close>

fun day_loop :: "'g prng \<Rightarrow> StrategyConfig \<Rightarrow> nat \<Rightarrow> day_locals \<Rightarrow> 'g \<Rightarrow> day_locals \<times> 'g" where
  "day_loop P st 0 s g = (s, g)"
| "day_loop P st (Suc n) s g =
     (if daily_losses (wallet s) \<le> - portfolio_daily_cap
      then (s\<lparr>day_locals.daily_loss_hit := True\<rparr>, g)
      else if \<bar>daily_losses (wallet s)\<bar> \<ge> per_wallet_daily_cap
      then (s, g)
      else if current_exposure s + position_size_usd st > max_total_exposure
      then (s\<lparr>day_locals.max_concurrent_hit := True\<rparr>, g)
      else (case execute_trade P st s g of (s1, g1) \<Rightarrow> day_loop P st n s1 g1))"

definition day_start :: "WalletSimulator \<Rightarrow> day_locals" where
  "day_start w =
     \<lparr>wallet = reset_daily w, trades_today = 0, day_locals.wins = 0, day_locals.losses = 0,
      day_locals.max_concurrent_hit = False, day_locals.daily_loss_hit = False,
      current_exposure = 0\<rparr>"

definition day_result :: "StrategyConfig \<Rightarrow> int \<Rightarrow> day_locals \<Rightarrow> DailyResult" where
  "day_result st d s =
     \<lparr>day = d, strategy = name st, trades_taken = trades_today s,
      wins = day_locals.wins s, losses = day_locals.losses s,
      daily_pnl = WalletSimulator.daily_pnl (wallet s),
      cumulative_pnl = total_pnl (wallet s),
      hit_rate = real_of_int (day_locals.wins s) / real_of_int (max (trades_today s) 1),
      max_concurrent_hit = day_locals.max_concurrent_hit s,
      daily_loss_hit = day_locals.daily_loss_hit s,
      bankroll = initial_bankroll (wallet s) + total_pnl (wallet s)\<rparr>"

text \<open>
  \<^verbatim>\<open>simulate_day\<close> returns the record of the day, the wallet as the call leaves it and
  the generator state; it returns nothing when the trade-count draw never ends.
\<close>

definition simulate_day ::
  "'g prng \<Rightarrow> WalletSimulator \<Rightarrow> StrategyConfig \<Rightarrow> int \<Rightarrow> real \<Rightarrow> 'g
     \<Rightarrow> (DailyResult \<times> WalletSimulator \<times> 'g) option" where
  "simulate_day P w st d avg_trades_per_day g =
     (case poisson_random P avg_trades_per_day g of
        None \<Rightarrow> None
      | Some (k, g1) \<Rightarrow>
          let num_trades = max 1 k in
          (case day_loop P st (nat num_trades) (day_start w) g1 of
             (s, g2) \<Rightarrow> Some (day_result st d s, wallet s, g2)))"

section \<open>The strategy runner\<close>

text \<open>
  The inner loop \<^verbatim>\<open>for day in range(days)\<close> of \<^verbatim>\<open>run_simulation\<close> for one strategy
  and its wallet: \<open>n\<close> days remain, \<open>d\<close> is the loop variable \<^verbatim>\<open>day\<close>, and the
  records are appended in day order.
\<close>

fun run_days ::
  "'g prng \<Rightarrow> StrategyConfig \<Rightarrow> nat \<Rightarrow> int \<Rightarrow> WalletSimulator \<Rightarrow> 'g
     \<Rightarrow> (DailyResult list \<times> WalletSimulator \<times> 'g) option" where
  "run_days P st 0 d w g = Some ([], w, g)"
| "run_days P st (Suc n) d w g =
     (case simulate_day P w st (d + 1) 6 g of
        None \<Rightarrow> None
      | Some (r, w1, g1) \<Rightarrow>
          (case run_days P st n (d + 1) w1 g1 of
             None \<Rightarrow> None
           | Some (rs, w2, g2) \<Rightarrow> Some (r # rs, w2, g2)))"

text \<open>The outer loop over the strategies, each with a wallet of its own.\<close>

fun run_strategies ::
  "'g prng \<Rightarrow> StrategyConfig list \<Rightarrow> int \<Rightarrow> 'g \<Rightarrow> (DailyResult list \<times> 'g) option" where
  "run_strategies P [] days g = Some ([], g)"
| "run_strategies P (st # sts) days g =
     (case run_days P st (nat days) 0 (WalletSimulator_init 1000) g of
        None \<Rightarrow> None
      | Some (rs, w, g1) \<Rightarrow>
          (case run_strategies P sts days g1 of
             None \<Rightarrow> None
           | Some (rs', g2) \<Rightarrow> Some (rs @ rs', g2)))"

definition conservative :: StrategyConfig where
  "conservative =
     \<lparr>name = ''Conservative (2.5%)'', position_size_pct = 2.5, position_size_usd = 25,
      max_concurrent_positions = 6,
      description = ''Very conservative, slow data collection''\<rparr>"

definition moderate :: StrategyConfig where
  "moderate =
     \<lparr>name = ''Moderate (5%)'', position_size_pct = 5, position_size_usd = 50,
      max_concurrent_positions = 10,
      description = ''Balanced approach, reasonable risk''\<rparr>"

definition aggressive :: StrategyConfig where
  "aggressive =
     \<lparr>name = ''Aggressive (10%)'', position_size_pct = 10, position_size_usd = 100,
      max_concurrent_positions = 5,
      description = ''Fast edge detection, higher volatility''\<rparr>"

definition strategies :: "StrategyConfig list" where
  "strategies = [conservative, moderate, aggressive]"

text \<open>
  \<^verbatim>\<open>run_simulation\<close> is called with the generator in whatever state \<open>g\<close> the process
  left it, and starts by seeding it with 42.
\<close>

definition run_simulation :: "'g prng \<Rightarrow> int \<Rightarrow> 'g \<Rightarrow> (DailyResult list \<times> 'g) option" where
  "run_simulation P days g = run_strategies P strategies days (rng_seed P 42)"

section \<open>The aggregator\<close>

text \<open>
  \<^verbatim>\<open>analyze_results\<close> groups the records by strategy name in a dictionary, which keeps
  the order in which the names were first seen.
\<close>

fun group_add :: "DailyResult \<Rightarrow> (string \<times> DailyResult list) list \<Rightarrow> (string \<times> DailyResult list) list" where
  "group_add r [] = [(strategy r, [r])]"
| "group_add r ((k, rs) # m) =
     (if k = strategy r then (k, rs @ [r]) # m else (k, rs) # group_add r m)"

definition group_by_strategy :: "DailyResult list \<Rightarrow> (string \<times> DailyResult list) list" where
  "group_by_strategy results = fold group_add results []"

text \<open>Python's \<^verbatim>\<open>max\<close> of a list of floats, which raises on the empty list.\<close>

fun py_max :: "real list \<Rightarrow> real option" where
  "py_max [] = None"
| "py_max (x # xs) = Some (fold max xs x)"

text \<open>
  Lines 240 to 243 of \<^verbatim>\<open>analyze_results\<close>: the maximum drawdown of one group, from
  the maximum of all its cumulative values.
\<close>

definition max_drawdown :: "DailyResult list \<Rightarrow> real option" where
  "max_drawdown strategy_results =
     (let cumulative_pnls = map cumulative_pnl strategy_results in
      case py_max cumulative_pnls of
        None \<Rightarrow> None
      | Some max_pnl \<Rightarrow> py_max (map (\<lambda>pnl. max_pnl - pnl) cumulative_pnls))"

definition analyze_max_drawdowns :: "DailyResult list \<Rightarrow> (string \<times> real option) list" where
  "analyze_max_drawdowns results =
     map (\<lambda>(strategy_name, strategy_results). (strategy_name, max_drawdown strategy_results))
       (group_by_strategy results)"

text \<open>
  The maximum drawdown as the specification words it: scan the cumulative values in day
  order, keep the running maximum seen so far, take the drop from it at each day, and
  report the largest drop.  \<open>running_drawdowns peak xs\<close> lists the drops of \<open>xs\<close> when
  the maximum before \<open>xs\<close> is \<open>peak\<close>.
\<close>

fun running_drawdowns :: "real \<Rightarrow> real list \<Rightarrow> real list" where
  "running_drawdowns peak [] = []"
| "running_drawdowns peak (x # xs) = (max peak x - x) # running_drawdowns (max peak x) xs"

definition spec_max_drawdown :: "DailyResult list \<Rightarrow> real option" where
  "spec_max_drawdown strategy_results =
     (case map cumulative_pnl strategy_results of
        [] \<Rightarrow> None
      | x # xs \<Rightarrow> py_max (running_drawdowns x (x # xs)))"

section \<open>A scripted generator for concrete runs\<close>

text \<open>
  A generator whose state is the list of the draws still to come: \<^verbatim>\<open>random.random()\<close>
  returns the next entry, \<^verbatim>\<open>random.gauss(mu, sigma)\<close> returns \<open>mu + sigma * z\<close> for the
  next entry \<open>z\<close>, and an exhausted script yields \<open>0\<close> and \<open>mu\<close>.  Seeding installs the
  script \<open>seeded\<close>.
\<close>

definition scripted_rng :: "real list \<Rightarrow> real list prng" where
  "scripted_rng seeded =
     \<lparr>rng_seed = (\<lambda>n. seeded),
      rng_random = (\<lambda>g. case g of [] \<Rightarrow> (0, []) | u # us \<Rightarrow> (u, us)),
      rng_gauss = (\<lambda>mu sigma g. case g of [] \<Rightarrow> (mu, []) | z # zs \<Rightarrow> (mu + sigma * z, zs))\<rparr>"

text \<open>
  Scripts for one day at a mean rate of 6: the first three entries make the trade-count
  draw return 2; then each trade takes a uniform draw, the jitter and the payoff noise.
\<close>

definition win_then_loss :: "real list" where
  "win_then_loss = [1/2, 1/2, 0, 0, 0, 0, 9/10, 0, 0]"

definition one_loss :: "real list" where
  "one_loss = [1/2, 1/2, 0, 9/10, 0, 0]"


text \<open>One outcome draw: a loss whose payoff noise lifts it to the clamp at 0.\<close>

definition clamped_loss :: "real list" where
  "clamped_loss = [9/10, 0, 5]"

text \<open>
  The records that \<^verbatim>\<open>run_simulation\<close> returns for two days when seeding installs the
  script \<open>win_then_loss\<close>: the first Conservative day takes a win and a loss, every later
  day a single win.
\<close>

definition seeded_results :: "DailyResult list" where
  "seeded_results =
    [\<lparr>day = 1, strategy = ''Conservative (2.5%)'', trades_taken = 2, wins = 1,
      losses = 1, daily_pnl = 20, cumulative_pnl = 20, hit_rate = 1 / 2,
      max_concurrent_hit = False, daily_loss_hit = False, bankroll = 1020\<rparr>,
     \<lparr>day = 2, strategy = ''Conservative (2.5%)'', trades_taken = 1, wins = 1,
      losses = 0, daily_pnl = 45, cumulative_pnl = 65, hit_rate = 1,
      max_concurrent_hit = False, daily_loss_hit = False, bankroll = 1065\<rparr>,
     \<lparr>day = 1, strategy = ''Moderate (5%)'', trades_taken = 1, wins = 1,
      losses = 0, daily_pnl = 90, cumulative_pnl = 90, hit_rate = 1,
      max_concurrent_hit = False, daily_loss_hit = False, bankroll = 1090\<rparr>,
     \<lparr>day = 2, strategy = ''Moderate (5%)'', trades_taken = 1, wins = 1,
      losses = 0, daily_pnl = 90, cumulative_pnl = 180, hit_rate = 1,
      max_concurrent_hit = False, daily_loss_hit = False, bankroll = 1180\<rparr>,
     \<lparr>day = 1, strategy = ''Aggressive (10%)'', trades_taken = 1, wins = 1,
      losses = 0, daily_pnl = 180, cumulative_pnl = 180, hit_rate = 1,
      max_concurrent_hit = False, daily_loss_hit = False, bankroll = 1180\<rparr>,
     \<lparr>day = 2, strategy = ''Aggressive (10%)'', trades_taken = 1, wins = 1,
      losses = 0, daily_pnl = 180, cumulative_pnl = 360, hit_rate = 1,
      max_concurrent_hit = False, daily_loss_hit = False, bankroll = 1360\<rparr>]"

section \<open>Auxiliary predicate\<close>


section \<open>Properties of one trade and of the day loop\<close>

lemma simulate_wallet_edge_clamped:
  "simulate_wallet_edge P wr aw al g = ((pnl, is_win), g') \<Longrightarrow>
     (is_win \<longrightarrow> 0 \<le> pnl) \<and> (\<not> is_win \<longrightarrow> pnl \<le> 0)"
  by (auto simp: simulate_wallet_edge_def split: prod.splits if_splits)

lemma execute_trade_counters:
  assumes "execute_trade P st s g = (s1, g1)"
  shows "trades_today s1 = trades_today s + 1"
    and "day_locals.wins s1 + day_locals.losses s1 = day_locals.wins s + day_locals.losses s + 1"
    and "day_locals.wins s \<le> day_locals.wins s1"
    and "day_locals.losses s \<le> day_locals.losses s1"
    and "day_locals.max_concurrent_hit s1 = day_locals.max_concurrent_hit s"
    and "day_locals.daily_loss_hit s1 = day_locals.daily_loss_hit s"
    and "current_exposure s1 = current_exposure s + position_size_usd st"
  using assms
  by (auto simp: execute_trade_def Let_def split: prod.splits if_splits)



lemma day_loop_counters:
  "day_loop P st n s g = (s', g') \<Longrightarrow>
     trades_today s \<le> trades_today s' \<and> trades_today s' \<le> trades_today s + int n \<and>
     day_locals.wins s' + day_locals.losses s' - trades_today s'
       = day_locals.wins s + day_locals.losses s - trades_today s \<and>
     day_locals.wins s \<le> day_locals.wins s' \<and> day_locals.losses s \<le> day_locals.losses s'"
proof (induction n arbitrary: s g)
  case 0
  then show ?case by simp
next
  case (Suc n)
  show ?case
  proof (cases "daily_losses (wallet s) \<le> - portfolio_daily_cap
      \<or> \<bar>daily_losses (wallet s)\<bar> \<ge> per_wallet_daily_cap
      \<or> current_exposure s + position_size_usd st > max_total_exposure")
    case True
    with Suc.prems show ?thesis by (auto split: if_splits)
  next
    case False
    obtain s1 g1 where e: "execute_trade P st s g = (s1, g1)" by (cases "execute_trade P st s g")
    with False Suc.prems have "day_loop P st n s1 g1 = (s', g')" by simp
    from Suc.IH [OF this] execute_trade_counters [OF e] show ?thesis by simp
  qed
qed

lemma day_loop_flags:
  "day_loop P st n s g = (s', g') \<Longrightarrow>
     \<not> day_locals.max_concurrent_hit s \<Longrightarrow> \<not> day_locals.daily_loss_hit s \<Longrightarrow>
     (day_locals.daily_loss_hit s' \<longrightarrow>
        \<not> day_locals.max_concurrent_hit s' \<and> daily_losses (wallet s') \<le> - portfolio_daily_cap) \<and>
     (day_locals.max_concurrent_hit s' \<longrightarrow>
        \<not> daily_losses (wallet s') \<le> - portfolio_daily_cap \<and>
        \<bar>daily_losses (wallet s')\<bar> < per_wallet_daily_cap \<and>
        current_exposure s' + position_size_usd st > max_total_exposure)"
proof (induction n arbitrary: s g)
  case 0
  then show ?case by simp
next
  case (Suc n)
  show ?case
  proof (cases "daily_losses (wallet s) \<le> - portfolio_daily_cap
      \<or> \<bar>daily_losses (wallet s)\<bar> \<ge> per_wallet_daily_cap
      \<or> current_exposure s + position_size_usd st > max_total_exposure")
    case True
    with Suc.prems show ?thesis by (auto split: if_splits)
  next
    case False
    obtain s1 g1 where e: "execute_trade P st s g = (s1, g1)" by (cases "execute_trade P st s g")
    with False Suc.prems(1) have "day_loop P st n s1 g1 = (s', g')" by simp
    from Suc.IH [OF this] execute_trade_counters(5,6) [OF e] Suc.prems(2,3) show ?thesis by simp
  qed
qed




lemma simulate_dayE:
  assumes "simulate_day P w st d avg g = Some (r, w', g')"
  obtains k g1 s where "poisson_random P avg g = Some (k, g1)"
    and "day_loop P st (nat (max 1 k)) (day_start w) g1 = (s, g')"
    and "r = day_result st d s" and "w' = wallet s"
  using assms
  by (auto simp: simulate_day_def Let_def split: option.splits prod.splits)

text \<open>Bounds on \<open>exp (- 6)\<close>, in the form the simplifier asks for when it runs the
  trade-count loop at the mean rate 6 on the scripts above.\<close>

lemma exp_minus_6_bounds:
  "exp (- 6 :: real) * 4 < 1" "exp (- 6 :: real) * 2 < 1"
proof -
  have "1 + (6::real) \<le> exp 6" by (rule exp_ge_add_one_self)
  then have "inverse (exp (6::real)) \<le> inverse 7" by (intro le_imp_inverse_le) simp_all
  moreover have "exp (- 6 :: real) = inverse (exp 6)" by (rule exp_minus)
  moreover have "0 < exp (- 6 :: real)" by simp
  ultimately show "exp (- 6 :: real) * 4 < 1" "exp (- 6 :: real) * 2 < 1" by simp_all
qed

lemmas run_day_simps =
  simulate_day_def poisson_random_def poisson_loop.simps scripted_rng_def exp_minus_6_bounds
  conservative_def moderate_def aggressive_def day_start_def reset_daily_def
  WalletSimulator_init_def day_result_def execute_trade_def simulate_wallet_edge_def
  portfolio_daily_cap_def per_wallet_daily_cap_def max_total_exposure_def Let_def
  numeral_2_eq_2

text \<open>Three concrete days, run on the scripted generator.\<close>

lemma loss_day_moderate:
  "simulate_day (scripted_rng []) (WalletSimulator_init 1000) moderate 1 6 one_loss =
     Some (\<lparr>day = 1, strategy = ''Moderate (5%)'', trades_taken = 1, wins = 0, losses = 1,
             daily_pnl = - 50, cumulative_pnl = - 50, hit_rate = 0,
             max_concurrent_hit = False, daily_loss_hit = True, bankroll = 950\<rparr>,
           \<lparr>initial_bankroll = 1000, bankroll = 1000, daily_pnl = - 50, total_pnl = - 50,
             daily_losses = - 50\<rparr>, [])"
  by (simp add: run_day_simps one_loss_def)

lemma mixed_day_moderate:
  "simulate_day (scripted_rng []) (WalletSimulator_init 1000) moderate 1 6 win_then_loss =
     Some (\<lparr>day = 1, strategy = ''Moderate (5%)'', trades_taken = 2, wins = 1, losses = 1,
             daily_pnl = 40, cumulative_pnl = 40, hit_rate = 1 / 2,
             max_concurrent_hit = False, daily_loss_hit = False, bankroll = 1040\<rparr>,
           \<lparr>initial_bankroll = 1000, bankroll = 1000, daily_pnl = 40, total_pnl = 40,
             daily_losses = - 50\<rparr>, [])"
  by (simp add: run_day_simps win_then_loss_def)


section \<open>Claims about one simulated day\<close>

text \<open>
  C3.  Whenever \<^verbatim>\<open>simulate_day\<close> returns, the returned record does not have
  \<open>daily_loss_hit\<close> and \<open>max_concurrent_hit\<close> both true: the checks run in a fixed
  order and the first one that fires ends the day.
\<close>

theorem flags_exclusive:
  assumes "simulate_day P w st d avg g = Some (r, w', g')"
  shows "\<not> (daily_loss_hit r \<and> max_concurrent_hit r)"
proof -
  from assms obtain k g1 s where
    l: "day_loop P st (nat (max 1 k)) (day_start w) g1 = (s, g')" and r: "r = day_result st d s"
    by (rule simulate_dayE)
  from day_loop_flags [OF l] have
    "\<not> (day_locals.daily_loss_hit s \<and> day_locals.max_concurrent_hit s)"
    by (auto simp: day_start_def)
  with r show ?thesis by (simp add: day_result_def)
qed

theorem flags_exclusive_witness:
  "(case simulate_day (scripted_rng []) (WalletSimulator_init 1000) moderate 1 6 one_loss of
      None \<Rightarrow> False
    | Some (r, w', g') \<Rightarrow>
        daily_loss_hit r \<and> \<not> (daily_loss_hit r \<and> max_concurrent_hit r))"
  using flags_exclusive [OF loss_day_moderate] by (simp add: loss_day_moderate)

text \<open>
  C4.  Whenever \<^verbatim>\<open>simulate_day\<close> returns, the trade-count draw returned some \<open>k\<close>,
  the day took at most \<open>N = max 1 k\<close> trades, and the wins and losses add up to the trades
  taken.
\<close>

theorem trades_bounded_by_draw:
  assumes "simulate_day P w st d avg g = Some (r, w', g')"
  shows "\<exists>k g1. poisson_random P avg g = Some (k, g1) \<and>
           trades_taken r \<le> max 1 k \<and> wins r + losses r = trades_taken r"
proof -
  from assms obtain k g1 s where p: "poisson_random P avg g = Some (k, g1)" and
    l: "day_loop P st (nat (max 1 k)) (day_start w) g1 = (s, g')" and r: "r = day_result st d s"
    by (rule simulate_dayE)
  from day_loop_counters [OF l] have
    "trades_today s \<le> max 1 k" "day_locals.wins s + day_locals.losses s = trades_today s"
    by (auto simp: day_start_def max_def split: if_splits)
  with r p show ?thesis by (simp add: day_result_def)
qed

theorem trades_bounded_by_draw_witness:
  "(case simulate_day (scripted_rng []) (WalletSimulator_init 1000) moderate 1 6 win_then_loss of
      None \<Rightarrow> False
    | Some (r, w', g') \<Rightarrow>
        trades_taken r = 2 \<and>
        (\<exists>k g1. poisson_random (scripted_rng []) 6 win_then_loss = Some (k, g1) \<and>
           trades_taken r \<le> max 1 k \<and> wins r + losses r = trades_taken r))"
  using trades_bounded_by_draw [OF mixed_day_moderate] by (simp add: mixed_day_moderate)

text \<open>
  C5.  The hit rate of a returned record is wins divided by \<open>max trades_taken 1\<close>: it is 0
  when no trade was taken, wins divided by the trades taken otherwise, and it lies between
  0 and 1.
\<close>

theorem hit_rate_value:
  assumes "simulate_day P w st d avg g = Some (r, w', g')"
  shows "hit_rate r = real_of_int (wins r) / real_of_int (max (trades_taken r) 1) \<and>
         (trades_taken r = 0 \<longrightarrow> hit_rate r = 0) \<and>
         (0 < trades_taken r \<longrightarrow> hit_rate r = real_of_int (wins r) / real_of_int (trades_taken r)) \<and>
         0 \<le> hit_rate r \<and> hit_rate r \<le> 1"
proof -
  from assms obtain k g1 s where
    l: "day_loop P st (nat (max 1 k)) (day_start w) g1 = (s, g')" and r: "r = day_result st d s"
    by (rule simulate_dayE)
  from day_loop_counters [OF l] have c:
    "0 \<le> trades_today s" "day_locals.wins s + day_locals.losses s = trades_today s"
    "0 \<le> day_locals.wins s" "0 \<le> day_locals.losses s"
    by (auto simp: day_start_def)
  then have w: "day_locals.wins s \<le> trades_today s" by simp
  have h: "hit_rate r = real_of_int (day_locals.wins s) / real_of_int (max (trades_today s) 1)"
    and t: "trades_taken r = trades_today s" and ws: "wins r = day_locals.wins s"
    using r by (simp_all add: day_result_def)
  have z: "trades_today s = 0 \<Longrightarrow> day_locals.wins s = 0" using c by simp
  have "0 \<le> hit_rate r" using c h by simp
  moreover have "hit_rate r \<le> 1"
  proof -
    have "real_of_int (day_locals.wins s) \<le> real_of_int (max (trades_today s) 1)"
      using w by linarith
    moreover have "0 < real_of_int (max (trades_today s) 1)" by simp
    ultimately show ?thesis unfolding h by (simp only: pos_divide_le_eq mult_1)
  qed
  moreover have "trades_taken r = 0 \<longrightarrow> hit_rate r = 0" using z h t by simp
  moreover have "0 < trades_taken r \<longrightarrow>
      hit_rate r = real_of_int (wins r) / real_of_int (trades_taken r)"
    using h t ws by (simp add: max_def)
  ultimately show ?thesis using h t ws by simp
qed

theorem hit_rate_value_witness:
  "(case simulate_day (scripted_rng []) (WalletSimulator_init 1000) moderate 1 6 win_then_loss of
      None \<Rightarrow> False
    | Some (r, w', g') \<Rightarrow>
        hit_rate r = 1 / 2 \<and>
        hit_rate r = real_of_int (wins r) / real_of_int (max (trades_taken r) 1) \<and>
        0 < trades_taken r \<and>
        hit_rate r = real_of_int (wins r) / real_of_int (trades_taken r) \<and>
        0 \<le> hit_rate r \<and> hit_rate r \<le> 1)"
  using hit_rate_value [OF mixed_day_moderate] by (simp add: mixed_day_moderate)



text \<open>
  C6.  An outcome returned by \<^verbatim>\<open>simulate_wallet_edge\<close> with the win flag has a
  non-negative value, and one with the loss flag a non-positive value.  In the bookkeeping
  of a trade that draws the outcome \<open>pnl0\<close>, the win counter goes up exactly when the
  scaled result is not negative (so also when it is exactly 0), and the loss counter exactly
  when it is negative.
\<close>

theorem outcome_sign_and_bookkeeping:
  assumes "simulate_wallet_edge P win_rate avg_win avg_loss g = ((pnl, is_win), g')"
    and "simulate_wallet_edge P 0.55 45 25 h = ((pnl0, is_win0), h')"
    and "execute_trade P st s h = (s1, h1)"
  shows "(is_win \<longrightarrow> 0 \<le> pnl) \<and> (\<not> is_win \<longrightarrow> pnl \<le> 0) \<and>
         (pnl0 * (position_size_usd st / 25) = 0 \<longrightarrow>
            day_locals.wins s1 = day_locals.wins s + 1 \<and> day_locals.losses s1 = day_locals.losses s) \<and>
         (day_locals.wins s1 = day_locals.wins s + 1 \<and> day_locals.losses s1 = day_locals.losses s
            \<longleftrightarrow> \<not> pnl0 * (position_size_usd st / 25) < 0) \<and>
         (day_locals.losses s1 = day_locals.losses s + 1 \<and> day_locals.wins s1 = day_locals.wins s
            \<longleftrightarrow> pnl0 * (position_size_usd st / 25) < 0)"
proof -
  define scaled where "scaled = pnl0 * (position_size_usd st / 25)"
  have sign: "(is_win \<longrightarrow> 0 \<le> pnl) \<and> (\<not> is_win \<longrightarrow> pnl \<le> 0)"
    using assms(1) by (rule simulate_wallet_edge_clamped)
  have "(scaled = 0 \<longrightarrow>
            day_locals.wins s1 = day_locals.wins s + 1 \<and> day_locals.losses s1 = day_locals.losses s) \<and>
         (day_locals.wins s1 = day_locals.wins s + 1 \<and> day_locals.losses s1 = day_locals.losses s
            \<longleftrightarrow> \<not> scaled < 0) \<and>
         (day_locals.losses s1 = day_locals.losses s + 1 \<and> day_locals.wins s1 = day_locals.wins s
            \<longleftrightarrow> scaled < 0)"
  proof (cases "scaled < 0")
    case True
    then have "day_locals.losses s1 = day_locals.losses s + 1 \<and> day_locals.wins s1 = day_locals.wins s"
      using assms(2,3) by (auto simp: execute_trade_def Let_def scaled_def)
    with True show ?thesis by simp
  next
    case False
    then have "day_locals.wins s1 = day_locals.wins s + 1 \<and> day_locals.losses s1 = day_locals.losses s"
      using assms(2,3) by (auto simp: execute_trade_def Let_def scaled_def)
    with False show ?thesis by simp
  qed
  with sign show ?thesis unfolding scaled_def by blast
qed

theorem outcome_sign_and_bookkeeping_witness:
  "simulate_wallet_edge (scripted_rng []) 0.55 45 25 clamped_loss = ((0, False), []) \<and>
   execute_trade (scripted_rng []) conservative (day_start (WalletSimulator_init 1000)) clamped_loss
     = ((day_start (WalletSimulator_init 1000))
          \<lparr>day_locals.wins := 1, trades_today := 1, current_exposure := 25\<rparr>, []) \<and>
   (0::real) * (position_size_usd conservative / 25) = 0 \<and>
   day_locals.wins ((day_start (WalletSimulator_init 1000))
          \<lparr>day_locals.wins := 1, trades_today := 1, current_exposure := 25\<rparr>)
     = day_locals.wins (day_start (WalletSimulator_init 1000)) + 1 \<and>
   day_locals.losses ((day_start (WalletSimulator_init 1000))
          \<lparr>day_locals.wins := 1, trades_today := 1, current_exposure := 25\<rparr>)
     = day_locals.losses (day_start (WalletSimulator_init 1000))"
proof -
  have o: "simulate_wallet_edge (scripted_rng []) 0.55 45 25 clamped_loss = ((0, False), [])"
    by (simp add: run_day_simps clamped_loss_def)
  have e: "execute_trade (scripted_rng []) conservative (day_start (WalletSimulator_init 1000))
      clamped_loss
     = ((day_start (WalletSimulator_init 1000))
          \<lparr>day_locals.wins := 1, trades_today := 1, current_exposure := 25\<rparr>, [])"
    by (simp add: run_day_simps clamped_loss_def)
  from outcome_sign_and_bookkeeping [OF o o e] o e show ?thesis by simp
qed

text \<open>
  C8.  Let the trade-count draw give \<open>N = max 1 m\<close> attempts, and let \<open>s\<close> be the state of
  the loop after \<open>k < N\<close> iterations, so that another trade is attempted.  If the daily
  realized losses in \<open>s\<close> do not reach the portfolio cap (\<open>\<le> - 30\<close>) but their absolute
  value is at least 20, the day ends in \<open>s\<close>: no further trade is taken, and the returned
  record has neither \<open>daily_loss_hit\<close> nor \<open>max_concurrent_hit\<close> set.
\<close>

theorem per_wallet_stop_is_silent:
  assumes "poisson_random P avg gi = Some (m, g0)"
    and "int k < max 1 m"
    and "day_loop P st k (day_start w) g0 = (s, g)"
    and "\<not> daily_losses (wallet s) \<le> - 30"
    and "20 \<le> \<bar>daily_losses (wallet s)\<bar>"
  shows "simulate_day P w st d avg gi = Some (day_result st d s, wallet s, g) \<and>
         \<not> daily_loss_hit (day_result st d s) \<and> \<not> max_concurrent_hit (day_result st d s) \<and>
         trades_taken (day_result st d s) = trades_today s \<and> trades_today s < max 1 m"
proof -
  obtain n where n: "nat (max 1 m) = k + Suc n"
    using assms(2) by (metis add_Suc_right less_imp_Suc_add zless_nat_eq_int_zless)
  have gen: "day_loop P st k s0 g0 = (s, g) \<Longrightarrow>
      \<not> day_locals.daily_loss_hit s0 \<Longrightarrow> \<not> day_locals.max_concurrent_hit s0 \<Longrightarrow>
      day_loop P st (k + Suc n) s0 g0 = (s, g) \<and>
      \<not> day_locals.daily_loss_hit s \<and> \<not> day_locals.max_concurrent_hit s" for s0
  proof (induction k arbitrary: s0 g0)
    case 0
    then have "s0 = s" "g0 = g" by simp_all
    with 0 assms(4,5) show ?case
      by (simp add: portfolio_daily_cap_def per_wallet_daily_cap_def)
  next
    case (Suc k)
    consider (loss) "daily_losses (wallet s0) \<le> - portfolio_daily_cap"
      | (wallet) "\<not> daily_losses (wallet s0) \<le> - portfolio_daily_cap"
          "\<bar>daily_losses (wallet s0)\<bar> \<ge> per_wallet_daily_cap"
      | (exposure) "\<not> daily_losses (wallet s0) \<le> - portfolio_daily_cap"
          "\<not> \<bar>daily_losses (wallet s0)\<bar> \<ge> per_wallet_daily_cap"
          "current_exposure s0 + position_size_usd st > max_total_exposure"
      | (trade) "\<not> daily_losses (wallet s0) \<le> - portfolio_daily_cap"
          "\<not> \<bar>daily_losses (wallet s0)\<bar> \<ge> per_wallet_daily_cap"
          "\<not> current_exposure s0 + position_size_usd st > max_total_exposure"
      by blast
    then show ?case
    proof cases
      case loss
      with Suc.prems(1) have "wallet s = wallet s0" by auto
      with loss assms(4) show ?thesis by (simp add: portfolio_daily_cap_def)
    next
      case wallet
      with Suc.prems show ?thesis by auto
    next
      case exposure
      with Suc.prems(1) have "wallet s = wallet s0" by auto
      with exposure assms(5) show ?thesis by (simp add: per_wallet_daily_cap_def)
    next
      case trade
      obtain s1 g1 where e: "execute_trade P st s0 g0 = (s1, g1)"
        by (cases "execute_trade P st s0 g0")
      with trade Suc.prems(1) have l: "day_loop P st k s1 g1 = (s, g)" by simp
      have "day_loop P st (k + Suc n) s1 g1 = (s, g) \<and>
          \<not> day_locals.daily_loss_hit s \<and> \<not> day_locals.max_concurrent_hit s"
        using Suc.IH [OF l] execute_trade_counters(5,6) [OF e] Suc.prems(2,3) by simp
      with trade e show ?thesis by simp
    qed
  qed
  have "day_loop P st (k + Suc n) (day_start w) g0 = (s, g) \<and>
      \<not> day_locals.daily_loss_hit s \<and> \<not> day_locals.max_concurrent_hit s"
    using assms(3) by (intro gen) (simp_all add: day_start_def)
  moreover have "trades_today s \<le> int k"
    using day_loop_counters [OF assms(3)] by (simp add: day_start_def)
  ultimately show ?thesis
    using assms(1,2) n by (simp add: simulate_day_def day_result_def)
qed

lemma trade_count_two: "poisson_random (scripted_rng []) 6 one_loss = Some (2, [9/10, 0, 0])"
  by (simp add: run_day_simps one_loss_def)

lemma first_trade_loses:
  "day_loop (scripted_rng []) conservative 1 (day_start (WalletSimulator_init 1000)) [9/10, 0, 0]
     = (\<lparr>wallet = \<lparr>initial_bankroll = 1000, bankroll = 1000, daily_pnl = - 25, total_pnl = - 25,
                    daily_losses = - 25\<rparr>,
         trades_today = 1, day_locals.wins = 0, day_locals.losses = 1,
         day_locals.max_concurrent_hit = False, day_locals.daily_loss_hit = False,
         current_exposure = 25\<rparr>, [])"
  by (simp add: run_day_simps)

theorem per_wallet_stop_is_silent_witness:
  "simulate_day (scripted_rng []) (WalletSimulator_init 1000) conservative 1 6 one_loss =
     Some (\<lparr>day = 1, strategy = ''Conservative (2.5%)'', trades_taken = 1, wins = 0, losses = 1,
             daily_pnl = - 25, cumulative_pnl = - 25, hit_rate = 0,
             max_concurrent_hit = False, daily_loss_hit = False, bankroll = 975\<rparr>,
           \<lparr>initial_bankroll = 1000, bankroll = 1000, daily_pnl = - 25, total_pnl = - 25,
             daily_losses = - 25\<rparr>, []) \<and>
   poisson_random (scripted_rng []) 6 one_loss = Some (2, [9/10, 0, 0]) \<and> (1::int) < max 1 2"
proof -
  let ?s = "\<lparr>wallet = \<lparr>initial_bankroll = 1000, bankroll = 1000, daily_pnl = - 25,
                 total_pnl = - 25, daily_losses = - 25\<rparr>,
         trades_today = 1, day_locals.wins = 0, day_locals.losses = 1,
         day_locals.max_concurrent_hit = False, day_locals.daily_loss_hit = False,
         current_exposure = 25\<rparr>"
  have k: "int 1 < max 1 2" by simp
  have a: "\<not> daily_losses (wallet ?s) \<le> - 30" by simp
  have b: "20 \<le> \<bar>daily_losses (wallet ?s)\<bar>" by simp
  from per_wallet_stop_is_silent [OF trade_count_two k first_trade_loses a b, of 1]
  show ?thesis by (simp add: day_result_def conservative_def trade_count_two)
qed

section \<open>When the simulation returns\<close>

text \<open>
  The trade-count loop ends, and with it every function above returns, as soon as the
  uniform draws of the generator lie in \<open>[0, c]\<close> for some \<open>c < 1\<close>
  (\<^verbatim>\<open>random.random()\<close> returns multiples of \<open>1 / 2 ^ 53\<close> below 1).
\<close>

lemma poisson_loop_fuel:
  "0 \<le> p \<Longrightarrow> p * c ^ n \<le> L \<Longrightarrow> 0 \<le> c \<Longrightarrow>
   \<forall>g. 0 \<le> fst (rng_random P g) \<and> fst (rng_random P g) \<le> c \<Longrightarrow>
   \<exists>r. poisson_loop P L k p g = Some r"
proof (induction n arbitrary: p k g)
  case 0
  then show ?case by (subst poisson_loop.simps) simp
next
  case (Suc n)
  show ?case
  proof (cases "p > L")
    case False
    then show ?thesis by (subst poisson_loop.simps) simp
  next
    case True
    obtain u g1 where d: "rng_random P g = (u, g1)" by (cases "rng_random P g")
    with Suc.prems(4) have u: "0 \<le> u" "u \<le> c" by (metis fst_conv)+
    have "0 \<le> p * u" using Suc.prems(1) u by simp
    moreover have "p * u * c ^ n \<le> L"
    proof -
      have "p * u * c ^ n \<le> p * c * c ^ n"
        using u Suc.prems(1,3) by (intro mult_right_mono mult_left_mono) simp_all
      with Suc.prems(2) show ?thesis by (simp add: mult.assoc)
    qed
    ultimately obtain r where "poisson_loop P L (k + 1) (p * u) g1 = Some r"
      using Suc.IH [of "p * u" "k + 1" g1] Suc.prems(3,4) by blast
    with True d show ?thesis by (subst poisson_loop.simps) simp
  qed
qed

lemma poisson_random_returns:
  assumes "0 \<le> c" "c < 1"
    and "\<forall>g. 0 \<le> fst (rng_random P g) \<and> fst (rng_random P g) \<le> c"
  shows "\<exists>k g1. poisson_random P lambda g = Some (k, g1)"
proof -
  have "0 < exp (- lambda)" by simp
  with assms(2) obtain n where "c ^ n < exp (- lambda)"
    using real_arch_pow_inv by blast
  then have "1 * c ^ n \<le> exp (- lambda)" by simp
  with assms obtain r where "poisson_loop P (exp (- lambda)) 0 1 g = Some r"
    using poisson_loop_fuel [of 1 c n "exp (- lambda)" P 0 g] by auto
  then show ?thesis by (cases r) (simp add: poisson_random_def)
qed

lemma simulate_day_returns:
  assumes "0 \<le> c" "c < 1"
    and "\<forall>g. 0 \<le> fst (rng_random P g) \<and> fst (rng_random P g) \<le> c"
  shows "\<exists>r w' g'. simulate_day P w st d avg g = Some (r, w', g')"
proof -
  from poisson_random_returns [OF assms] obtain k g1 where
    "poisson_random P avg g = Some (k, g1)" by blast
  then show ?thesis by (simp add: simulate_day_def Let_def split: prod.splits)
qed

lemma run_days_returns:
  assumes "0 \<le> c" "c < 1"
    and "\<forall>g. 0 \<le> fst (rng_random P g) \<and> fst (rng_random P g) \<le> c"
  shows "\<exists>rs w' g'. run_days P st n d w g = Some (rs, w', g')"
proof (induction n arbitrary: d w g)
  case 0
  show ?case by simp
next
  case (Suc n)
  from simulate_day_returns [OF assms] obtain r w1 g1 where
    s: "simulate_day P w st (d + 1) 6 g = Some (r, w1, g1)" by blast
  from Suc.IH obtain rs w2 g2 where "run_days P st n (d + 1) w1 g1 = Some (rs, w2, g2)" by blast
  with s show ?case by simp
qed

lemma run_simulation_returns:
  assumes "0 \<le> c" "c < 1"
    and "\<forall>g. 0 \<le> fst (rng_random P g) \<and> fst (rng_random P g) \<le> c"
  shows "\<exists>rs g'. run_simulation P days g = Some (rs, g')"
proof -
  have "\<exists>rs g'. run_strategies P sts days g0 = Some (rs, g')" for sts g0
  proof (induction sts arbitrary: g0)
    case Nil
    show ?case by simp
  next
    case (Cons st sts)
    from run_days_returns [OF assms] obtain xs w g1 where
      x: "run_days P st (nat days) 0 (WalletSimulator_init 1000) g0 = Some (xs, w, g1)" by blast
    from Cons.IH obtain ys g2 where "run_strategies P sts days g1 = Some (ys, g2)" by blast
    with x show ?case by simp
  qed
  then show ?thesis by (simp add: run_simulation_def)
qed

section \<open>Claims about the strategy runner\<close>








text \<open>
  C9.  \<^verbatim>\<open>run_simulation\<close> seeds the generator with 42 before the first draw, so its
  result (the ordered records and the final generator state) is the same whatever state
  the generator was in before the call: it is a function of the seed, the day count and
  the parameters only.  The loops it runs do read the generator state they are given
  (\<open>run_strategies_reads_generator\<close>).
\<close>

theorem seeded_run_ignores_prior_state:
  "run_simulation P days g = run_simulation P days g'"
  by (simp add: run_simulation_def)

lemma run_strategies_reads_generator:
  "run_strategies (scripted_rng []) strategies 1 [] \<noteq>
   run_strategies (scripted_rng []) strategies 1 one_loss"
  by (simp add: strategies_def run_day_simps one_loss_def)

section \<open>Claims about the maximum drawdown\<close>

text \<open>
  What lines 240 to 243 compute is the range of the cumulative values, largest minus
  smallest, whatever their order; it is 0 only when all of them are equal.  The drawdown
  from the running peak is 0 exactly when the values never decrease.
\<close>

lemma py_max_Max:
  assumes "xs \<noteq> []"
  shows "py_max xs = Some (Max (set xs))"
proof (cases xs)
  case Nil
  with assms show ?thesis by simp
next
  case (Cons x ys)
  have "Max (set (x # ys)) = fold max ys x" by (rule Max.set_eq_fold)
  with Cons show ?thesis by simp
qed

lemma max_drawdown_range:
  assumes "rs \<noteq> []"
  shows "max_drawdown rs =
    Some (Max (cumulative_pnl ` set rs) - Min (cumulative_pnl ` set rs))"
proof -
  let ?S = "cumulative_pnl ` set rs"
  have fin: "finite ?S" and ne: "?S \<noteq> {}" using assms by simp_all
  have "Max ((\<lambda>pnl. Max ?S - pnl) ` ?S) = Max ?S - Min ?S"
  proof (rule Max_eqI)
    show "finite ((\<lambda>pnl. Max ?S - pnl) ` ?S)" using fin by simp
    show "y \<le> Max ?S - Min ?S" if "y \<in> (\<lambda>pnl. Max ?S - pnl) ` ?S" for y
    proof -
      from that obtain p where "p \<in> ?S" "y = Max ?S - p" by blast
      moreover from this fin have "Min ?S \<le> p" by simp
      ultimately show ?thesis by simp
    qed
    show "Max ?S - Min ?S \<in> (\<lambda>pnl. Max ?S - pnl) ` ?S"
      using Min_in [OF fin ne] by blast
  qed
  then show ?thesis
    using assms by (simp add: max_drawdown_def py_max_Max image_image)
qed

lemma max_drawdown_zero_iff:
  assumes "rs \<noteq> []"
  shows "\<exists>d. max_drawdown rs = Some d \<and> 0 \<le> d \<and>
    (d = 0 \<longleftrightarrow> (\<forall>a\<in>set rs. \<forall>b\<in>set rs. cumulative_pnl a = cumulative_pnl b))"
proof -
  let ?S = "cumulative_pnl ` set rs"
  have fin: "finite ?S" and ne: "?S \<noteq> {}" using assms by simp_all
  have le: "Min ?S \<le> Max ?S" using fin ne by simp
  have "Max ?S - Min ?S = 0 \<longleftrightarrow> (\<forall>a\<in>set rs. \<forall>b\<in>set rs. cumulative_pnl a = cumulative_pnl b)"
  proof
    assume e: "Max ?S - Min ?S = 0"
    show "\<forall>a\<in>set rs. \<forall>b\<in>set rs. cumulative_pnl a = cumulative_pnl b"
    proof (intro ballI)
      fix a b assume "a \<in> set rs" "b \<in> set rs"
      then have "Min ?S \<le> cumulative_pnl a" "cumulative_pnl a \<le> Max ?S"
        "Min ?S \<le> cumulative_pnl b" "cumulative_pnl b \<le> Max ?S"
        using fin by simp_all
      with e show "cumulative_pnl a = cumulative_pnl b" by linarith
    qed
  next
    assume c: "\<forall>a\<in>set rs. \<forall>b\<in>set rs. cumulative_pnl a = cumulative_pnl b"
    from Max_in [OF fin ne] obtain a where a: "a \<in> set rs" "Max ?S = cumulative_pnl a" by auto
    from Min_in [OF fin ne] obtain b where b: "b \<in> set rs" "Min ?S = cumulative_pnl b" by auto
    from c a(1) b(1) have "cumulative_pnl a = cumulative_pnl b" by blast
    with a(2) b(2) have "Max ?S = Min ?S" by simp
    then show "Max ?S - Min ?S = 0" by simp
  qed
  with le max_drawdown_range [OF assms] show ?thesis by simp
qed

lemma running_drawdowns_nonneg: "d \<in> set (running_drawdowns peak xs) \<Longrightarrow> 0 \<le> d"
  by (induction xs arbitrary: peak) auto

lemma running_drawdowns_zero_iff:
  "(\<forall>d\<in>set (running_drawdowns peak xs). d = 0) \<longleftrightarrow> sorted (peak # xs)"
proof (induction xs arbitrary: peak)
  case Nil
  show ?case by simp
next
  case (Cons x xs)
  show ?case
  proof (cases "peak \<le> x")
    case True
    then have "max peak x = x" by simp
    have "sorted (peak # x # xs) \<longleftrightarrow> sorted (x # xs)"
      using True by (auto intro: order_trans)
    with Cons.IH [of x] \<open>max peak x = x\<close> show ?thesis by simp
  next
    case False
    then show ?thesis by (auto simp: max_def)
  qed
qed

lemma spec_max_drawdown_zero_iff:
  assumes "rs \<noteq> []"
  shows "\<exists>d. spec_max_drawdown rs = Some d \<and> 0 \<le> d \<and>
    (d = 0 \<longleftrightarrow> sorted (map cumulative_pnl rs))"
proof -
  from assms obtain x xs where c: "map cumulative_pnl rs = x # xs"
    by (cases rs) auto
  let ?ds = "running_drawdowns x (x # xs)"
  have ne: "?ds \<noteq> []" by simp
  have s: "spec_max_drawdown rs = Some (Max (set ?ds))"
    using c py_max_Max [OF ne] by (simp add: spec_max_drawdown_def)
  have fin: "finite (set ?ds)" and nes: "set ?ds \<noteq> {}" by simp_all
  have nn: "0 \<le> Max (set ?ds)"
    using Max_in [OF fin nes] by (rule running_drawdowns_nonneg)
  have "Max (set ?ds) = 0 \<longleftrightarrow> (\<forall>d\<in>set ?ds. d = 0)"
  proof
    assume m: "Max (set ?ds) = 0"
    show "\<forall>d\<in>set ?ds. d = 0"
    proof
      fix d assume d: "d \<in> set ?ds"
      then have "d \<le> Max (set ?ds)" using fin by simp
      with m running_drawdowns_nonneg [OF d] show "d = 0" by simp
    qed
  next
    assume "\<forall>d\<in>set ?ds. d = 0"
    with Max_in [OF fin nes] show "Max (set ?ds) = 0" by blast
  qed
  also have "\<dots> \<longleftrightarrow> sorted (x # x # xs)" by (rule running_drawdowns_zero_iff)
  also have "\<dots> \<longleftrightarrow> sorted (x # xs)" by auto
  finally have "Max (set ?ds) = 0 \<longleftrightarrow> sorted (x # xs)" .
  then have "Max (set ?ds) = 0 \<longleftrightarrow> sorted (map cumulative_pnl rs)" by (simp only: c)
  with s nn show ?thesis by blast
qed

lemma seeded_groups:
  "group_by_strategy seeded_results =
     [(''Conservative (2.5%)'', take 2 seeded_results),
      (''Moderate (5%)'', take 2 (drop 2 seeded_results)),
      (''Aggressive (10%)'', drop 4 seeded_results)]"
  by (simp add: group_by_strategy_def seeded_results_def)

text \<open>
  C1.  The claim is that the aggregator's maximum drawdown is the largest drop from the
  running maximum.  On the two-day run \<open>seeded_results\<close>, in which no strategy's
  cumulative profit/loss ever decreases, \<^verbatim>\<open>analyze_results\<close> computes 45, 90 and 180
  for the three strategies (last value minus first), while the largest drop from the
  running maximum is 0 for each.
\<close>

theorem drawdown_uses_global_peak:
  "analyze_max_drawdowns seeded_results =
     [(''Conservative (2.5%)'', Some 45), (''Moderate (5%)'', Some 90),
      (''Aggressive (10%)'', Some 180)] \<and>
   map (\<lambda>(strategy_name, strategy_results). (strategy_name, spec_max_drawdown strategy_results))
     (group_by_strategy seeded_results) =
     [(''Conservative (2.5%)'', Some 0), (''Moderate (5%)'', Some 0),
      (''Aggressive (10%)'', Some 0)]"
  by (simp add: analyze_max_drawdowns_def seeded_groups max_drawdown_def spec_max_drawdown_def)
     (simp add: seeded_results_def)

text \<open>
  C2.  The claim is that the maximum drawdown is 0 if and only if the cumulative
  profit/loss never decreases.  The two Conservative records of \<open>seeded_results\<close> have
  the cumulative values 20 and 65, a non-decreasing sequence, and
  \<^verbatim>\<open>analyze_results\<close> computes the maximum drawdown 45 for them.
\<close>

theorem drawdown_positive_on_rising_run:
  "map cumulative_pnl (take 2 seeded_results) = [20, 65] \<and>
   sorted (map cumulative_pnl (take 2 seeded_results)) \<and>
   max_drawdown (take 2 seeded_results) = Some 45"
  by (simp add: seeded_results_def max_drawdown_def)

end
